theory Spec2Isabelle
  imports Complex_Main "HOL-Library.Multiset"
begin

section \<open>Image data utilities of symnet: a shallow embedding of symnet/image/data_utils.py\<close>

text \<open>
  The module is glue code around numpy, pandas, imageio, scipy, scikit-learn and the
  operating system. Every Python function of the module is a HOL function of the same
  name. A raised exception is the left summand of \<open>error + 'a\<close>, printed lines are
  returned as a list, and the collaborators whose behaviour the module does not fix (the file
  system, the image codec, the random split, \<open>symnet.data_utils.rebalance\<close>, the
  scheduling of the worker pool, the spline interpolation, the CSV parser on files that are
  no rectangular table) are fields of an environment record, so that every theorem holds for
  each of their behaviours.
\<close>

subsection \<open>Exceptions\<close>

datatype error =
    ValueError string
  | TypeError string
  | IndexError string
  | KeyError string
  | RuntimeError string
  | AxisError string
  | ExternalError string

definition and_then :: "error + 'a \<Rightarrow> ('a \<Rightarrow> error + 'b) \<Rightarrow> error + 'b" where
  "and_then m f = (case m of Inl e \<Rightarrow> Inl e | Inr x \<Rightarrow> f x)"

subsection \<open>Arrays, batches, data frames\<close>

text \<open>
  A numeric \<open>numpy.ndarray\<close>: its shape and its elements in row-major order. An array
  of numpy holds \<open>prod_list shape\<close> elements (\<open>wf_array\<close>).
\<close>

datatype 'a ndarray = NDArray (shape: "nat list") (data: "'a list")

definition wf_array :: "'a ndarray \<Rightarrow> bool" where
  "wf_array a = (length (data a) = prod_list (shape a))"

text \<open>
  What the functions receive as \<open>images\<close>: \<open>None\<close>, a numeric array (a 0-d array, an
  empty array, or images of one shape stacked along axis 0), or a 1-d object array holding
  images of differing shapes.
\<close>

datatype 'a batch = PyNone | Arr "'a ndarray" | Obj "'a ndarray list"

text \<open>The tabular data of pandas: column names and rows of cells.\<close>

record dataframe =
  columns :: "string list"
  rows :: "string list list"

text \<open>
  The two return values of \<open>read_csv_file\<close>: the 2-tuple \<open>[[]], []\<close> and the 4-tuple of
  column series.
\<close>

datatype csv_result =
    Tuple2 "string list list" "string list"
  | Tuple4 "string list" "string list" "string list" "string list"

text \<open>
  The value of \<open>compute_median_dimensions\<close>: the Python list \<open>[]\<close>, a 0-d integer
  array, or a 1-d integer array.
\<close>

datatype median_shape = PyEmptyList | IntScalar int | Dims "int list"

subsection \<open>The environment\<close>

record 'a env =
  path_exists :: "string \<Rightarrow> bool"
  isdir :: "string \<Rightarrow> bool"
  imread :: "string \<Rightarrow> error + 'a ndarray"
  file_lines :: "string \<Rightarrow> string list list"
  read_csv_other :: "string \<Rightarrow> error + dataframe"
  train_test_split :: "dataframe \<Rightarrow> error + dataframe \<times> dataframe"
  rebalance :: "dataframe \<Rightarrow> string \<Rightarrow> error + dataframe"
  pool_pick :: "nat \<Rightarrow> nat"
  ragged_array :: "'a ndarray list \<Rightarrow> error option"
  ragged_median :: "nat list list \<Rightarrow> error + median_shape"
  nan_int :: int
  spline :: "'a ndarray \<Rightarrow> nat list \<Rightarrow> 'a list"

text \<open>
  \<^item> \<open>path_exists\<close>, \<open>isdir\<close>: \<open>os.path.exists\<close>, \<open>os.path.isdir\<close>;
  \<^item> \<open>imread\<close>: \<open>imageio.imread\<close>;
  \<^item> \<open>file_lines\<close>: the lines of the file at a path, each one as the list of cells that
    the tokenizer of \<open>pandas.read_csv\<close> splits it into; a blank line has no cell;
  \<^item> \<open>read_csv_other\<close>: what \<open>pandas.read_csv(path)\<close> returns for a file that is no
    rectangular table under distinct names (see \<open>pd_read_csv\<close> below);
  \<^item> \<open>train_test_split\<close>: \<open>sklearn.model_selection.train_test_split(df, train_size=0.7)\<close>,
    with the random choice it makes;
  \<^item> \<open>rebalance\<close>: \<open>symnet.data_utils.rebalance\<close>;
  \<^item> \<open>pool_pick\<close>: which failed task of \<open>Pool.map\<close> reports first;
  \<^item> \<open>ragged_array\<close>: what \<open>numpy.array\<close> does with arrays of differing shapes: it
    raises (\<open>Some\<close>) or builds an object array, depending on the shapes and on the release;
  \<^item> \<open>ragged_median\<close>: what \<open>numpy.median(...).astype(int)\<close> does with shape tuples of
    differing lengths: it raises or returns a value, depending on the release;
  \<^item> \<open>nan_int\<close>: the integer that the cast of NaN gives on the platform;
  \<^item> \<open>spline\<close>: the interpolated values that \<open>scipy.ndimage.zoom\<close> writes into an
    output of the given shape.
\<close>

subsection \<open>Library functions with a fixed meaning\<close>

text \<open>\<open>os.path.join\<close> of two components, on POSIX.\<close>

definition path_join :: "string \<Rightarrow> string \<Rightarrow> string" where
  "path_join a b =
     (if b \<noteq> [] \<and> hd b = CHR ''/'' then b
      else if a = [] \<or> last a = CHR ''/'' then a @ b
      else a @ ''/'' @ b)"

text \<open>A list comprehension over a function that may raise: the first exception ends it.\<close>

fun seq_map :: "('a \<Rightarrow> error + 'b) \<Rightarrow> 'a list \<Rightarrow> error + 'b list" where
  "seq_map f [] = Inr []"
| "seq_map f (x # xs) =
     (case f x of
        Inl e \<Rightarrow> Inl e
      | Inr y \<Rightarrow> (case seq_map f xs of Inl e \<Rightarrow> Inl e | Inr ys \<Rightarrow> Inr (y # ys)))"

text \<open>
  \<open>Pool.map\<close>: the results in the order of the inputs when every task returns; otherwise
  the exception of one of the failed tasks, the one that reaches the parent first.
\<close>

definition pool_map :: "'p env \<Rightarrow> ('a \<Rightarrow> error + 'b) \<Rightarrow> 'a list \<Rightarrow> error + 'b list" where
  "pool_map env f xs =
     (let rs = map f xs; errs = map projl (filter isl rs)
      in if errs = [] then Inr (map projr rs)
         else Inl (errs ! (pool_pick env (length errs) mod length errs)))"

text \<open>
  \<open>numpy.array\<close> and \<open>numpy.asanyarray\<close> of a list of arrays: the empty list gives the
  empty array of shape \<open>(0,)\<close>, arrays of one shape are stacked along a new first axis.
\<close>

definition np_array :: "'a env \<Rightarrow> 'a ndarray list \<Rightarrow> error + 'a batch" where
  "np_array env xs =
     (if xs = [] then Inr (Arr (NDArray [0] []))
      else if list_all (\<lambda>x. shape x = shape (hd xs)) xs
      then Inr (Arr (NDArray (length xs # shape (hd xs)) (concat (map data xs))))
      else (case ragged_array env xs of Some e \<Rightarrow> Inl e | None \<Rightarrow> Inr (Obj xs)))"

text \<open>\<open>for x in images\<close>: the sub-arrays along the first axis.\<close>

definition items :: "'a batch \<Rightarrow> error + 'a ndarray list" where
  "items b =
     (case b of
        PyNone \<Rightarrow> Inl (TypeError ''NoneType object is not iterable'')
      | Obj xs \<Rightarrow> Inr xs
      | Arr a \<Rightarrow>
          (case shape a of
             [] \<Rightarrow> Inl (TypeError ''iteration over a 0-d array'')
           | n # s \<Rightarrow>
               Inr (map (\<lambda>i. NDArray s (take (prod_list s) (drop (i * prod_list s) (data a))))
                      [0..<n])))"

text \<open>\<open>images is None or len(images.shape) == 0\<close>.\<close>

definition shapeless :: "'a batch \<Rightarrow> bool" where
  "shapeless b = (case b of PyNone \<Rightarrow> True | Arr a \<Rightarrow> shape a = [] | Obj xs \<Rightarrow> False)"

text \<open>
  \<open>numpy.median\<close> of a non-empty list of integers: the middle element of the sorted
  list, or the mean of the two middle elements. The mean of two integers is exact in
  binary64 (below \<open>2^52\<close>), so it is a rational number here.
\<close>

definition median :: "nat list \<Rightarrow> rat" where
  "median xs =
     (let s = sort xs; n = length xs
      in if odd n then of_nat (s ! (n div 2))
         else (of_nat (s ! (n div 2 - 1)) + of_nat (s ! (n div 2))) / 2)"

text \<open>\<open>astype(int)\<close>: the C cast, which drops the fractional part.\<close>

definition astype_int :: "rat \<Rightarrow> int" where
  "astype_int q = (if 0 \<le> q then \<lfloor>q\<rfloor> else \<lceil>q\<rceil>)"

text \<open>
  \<open>numpy.median(shapes, axis=0).astype(int)\<close> on a list of shape tuples. The median of
  the empty list is NaN (with a warning), whose cast is the platform's \<open>nan_int\<close>.
\<close>

definition np_median_axis0 :: "'a env \<Rightarrow> nat list list \<Rightarrow> error + median_shape" where
  "np_median_axis0 env shapes =
     (if shapes = [] then Inr (IntScalar (nan_int env))
      else if list_all (\<lambda>s. length s = length (hd shapes)) shapes
      then Inr (Dims (map (\<lambda>j. astype_int (median (map (\<lambda>s. s ! j) shapes)))
                       [0..<length (hd shapes)]))
      else ragged_median env shapes)"

text \<open>
  \<open>numpy.divide(size, x.shape)\<close> with numpy's broadcasting of two 1-d operands; a
  division by zero gives an infinity or NaN (\<open>None\<close>), not an exception.
\<close>

definition fdiv :: "int \<Rightarrow> nat \<Rightarrow> rat option" where
  "fdiv a d = (if d = 0 then None else Some (of_int a / of_nat d))"

definition np_divide :: "int list \<Rightarrow> nat list \<Rightarrow> error + rat option list" where
  "np_divide t s =
     (if length t = length s then Inr (map2 fdiv t s)
      else if length t = 1 then Inr (map (fdiv (hd t)) s)
      else if length s = 1 then Inr (map (\<lambda>a. fdiv a (hd s)) t)
      else Inl (ValueError ''operands could not be broadcast together''))"

definition divide_size :: "'a env \<Rightarrow> median_shape \<Rightarrow> nat list \<Rightarrow> error + rat option list" where
  "divide_size env sz s =
     (case sz of
        PyEmptyList \<Rightarrow> np_divide [] s
      | IntScalar v \<Rightarrow> Inr (map (fdiv v) s)
      | Dims t \<Rightarrow> np_divide t s)"

text \<open>
  \<open>scipy.ndimage.zoom(input=x, zoom=z)\<close>: the output has
  \<open>int(round(d * z))\<close> elements along an axis of \<open>d\<close> elements. An empty axis has the
  factor infinity or NaN, the product is NaN and its conversion raises. The factors are
  exact here; in binary64 the product differs from the integer by a rounding error that
  \<open>round\<close> removes.
\<close>

definition zoom :: "'a env \<Rightarrow> 'a ndarray \<Rightarrow> rat option list \<Rightarrow> error + 'a ndarray" where
  "zoom env x z =
     (if shape x = [] then Inl (RuntimeError ''input and output rank must be > 0'')
      else if length z \<noteq> length (shape x)
      then Inl (RuntimeError ''sequence argument must have length equal to input rank'')
      else if None \<in> set z then Inl (ValueError ''cannot convert float NaN to integer'')
      else (let out = map2 (\<lambda>d f. round (of_nat d * the f)) (shape x) z
            in if list_ex (\<lambda>k. k < 0) out
               then Inl (ValueError ''negative dimensions are not allowed'')
               else Inr (NDArray (map nat out) (spline env x (map nat out)))))"

text \<open>
  \<open>pandas.read_csv(path)\<close> with its default arguments, as the module calls it. Blank
  lines are skipped (\<open>skip_blank_lines=True\<close>); a file without any other line raises
  \<open>EmptyDataError\<close>. No \<open>header\<close> and no \<open>names\<close> argument is passed, so the header is
  inferred (\<open>header='infer'\<close>): the first line that is left gives the column names and is
  no row of the table, whatever it holds; the lines after it are the rows.

  This is fixed here for a plain table: every row has as many cells as the first line, and
  the names in the first line are distinct and not empty. Elsewhere pandas pads short rows,
  moves leading cells of long rows into the index, renames repeated names and invents names
  for empty ones; the result for such a file is left to the environment. The cells are kept
  as the text of the file: the conversion of a column of numerals into numbers is not
  modelled.
\<close>

definition plain_table :: "string list list \<Rightarrow> bool" where
  "plain_table ls =
     (case ls of
        [] \<Rightarrow> False
      | h # body \<Rightarrow> h \<noteq> [] \<and> distinct h \<and> [] \<notin> set h \<and>
                   list_all (\<lambda>r. length r = length h) body)"

definition pd_read_csv :: "'a env \<Rightarrow> string \<Rightarrow> error + dataframe" where
  "pd_read_csv env path =
     (let ls = filter (\<lambda>r. r \<noteq> []) (file_lines env path)
      in if ls = [] then Inl (ExternalError ''EmptyDataError: No columns to parse from file'')
         else if plain_table ls then Inr \<lparr>columns = hd ls, rows = tl ls\<rparr>
         else read_csv_other env path)"

subsection \<open>The functions of the module\<close>

definition read_image :: "'a env \<Rightarrow> string \<Rightarrow> error + 'a ndarray" where
  "read_image env path = imread env path"

text \<open>\<open>_image_to_array\<close>; \<open>img[..., np.newaxis]\<close> appends an axis of length 1.\<close>

definition image_to_array :: "'a env \<Rightarrow> string \<Rightarrow> error + 'a ndarray" where
  "image_to_array env img_path =
     (if path_exists env img_path
      then (case read_image env img_path of
              Inl e \<Rightarrow> Inl e
            | Inr img \<Rightarrow>
                Inr (if length (shape img) < 3 then NDArray (shape img @ [1]) (data img)
                     else img))
      else Inl (ValueError (img_path @ '' image does not exist'')))"

definition read_images :: "'a env \<Rightarrow> string list \<Rightarrow> string \<Rightarrow> bool \<Rightarrow> error + 'a batch" where
  "read_images env img_file_names images_dir_path parallel =
     (let img_paths = map (path_join images_dir_path) img_file_names
      in if isdir env images_dir_path
         then and_then
                (if parallel then pool_map env (image_to_array env) img_paths
                 else seq_map (image_to_array env) img_paths)
                (np_array env)
         else Inl (ValueError ''Directory containing images does not exist''))"

text \<open>\<open>df.columns[i]\<close> and \<open>df[name]\<close>.\<close>

definition column_name :: "dataframe \<Rightarrow> nat \<Rightarrow> error + string" where
  "column_name df i =
     (if i < length (columns df) then Inr (columns df ! i)
      else Inl (IndexError ''index is out of bounds''))"

fun index_of :: "'a \<Rightarrow> 'a list \<Rightarrow> nat option" where
  "index_of c [] = None"
| "index_of c (x # xs) = (if x = c then Some 0 else map_option Suc (index_of c xs))"

definition df_column :: "dataframe \<Rightarrow> string \<Rightarrow> error + string list" where
  "df_column df c =
     (case index_of c (columns df) of
        None \<Rightarrow> Inl (KeyError c)
      | Some i \<Rightarrow> Inr (map (\<lambda>r. r ! i) (rows df)))"

text \<open>\<open>read_csv_file\<close>: the printed lines and the result.\<close>

definition read_csv_file ::
  "'a env \<Rightarrow> string option \<Rightarrow> bool \<Rightarrow> string list \<times> (error + csv_result)" where
  "read_csv_file env path balance =
     (if path = None \<or> \<not> path_exists env (the path)
      then ([''WARNING: Path does not exist, or is None.''], Inr (Tuple2 [[]] []))
      else
        (case pd_read_csv env (the path) of
           Inl e \<Rightarrow> ([], Inl e)
         | Inr df \<Rightarrow>
             if length (columns df) = 0
             then ([''WARNING: File has no columns''], Inr (Tuple2 [[]] []))
             else
               ([],
                and_then (train_test_split env df) (\<lambda>(train_df0, test_df).
                and_then (if balance
                          then and_then (column_name df 1) (rebalance env train_df0)
                          else Inr train_df0) (\<lambda>train_df.
                and_then (column_name df 0) (\<lambda>c0.
                and_then (df_column train_df c0) (\<lambda>x_train.
                and_then (column_name df 1) (\<lambda>c1.
                and_then (df_column train_df c1) (\<lambda>y_train.
                and_then (df_column test_df c0) (\<lambda>x_test.
                and_then (df_column test_df c1) (\<lambda>y_test.
                  Inr (Tuple4 x_train y_train x_test y_test))))))))))))"

text \<open>
  \<open>load_image_dataset\<close>; the assignment to four names raises when the tuple has two
  elements.
\<close>

definition load_image_dataset ::
  "'a env \<Rightarrow> string option \<Rightarrow> string \<Rightarrow> bool \<Rightarrow>
   string list \<times> (error + 'a batch \<times> string list \<times> 'a batch \<times> string list)" where
  "load_image_dataset env csv_file_path images_path parallel =
     (case read_csv_file env csv_file_path True of
        (out, r) \<Rightarrow>
          (out,
           and_then r (\<lambda>t.
             case t of
               Tuple2 a b \<Rightarrow> Inl (ValueError ''not enough values to unpack (expected 4, got 2)'')
             | Tuple4 x_train y_train x_test y_test \<Rightarrow>
                 and_then (read_images env x_train images_path parallel) (\<lambda>x_train'.
                 and_then (read_images env x_test images_path parallel) (\<lambda>x_test'.
                   Inr (x_train', y_train, x_test', y_test))))))"

definition compute_median_dimensions :: "'a env \<Rightarrow> 'a batch \<Rightarrow> error + median_shape" where
  "compute_median_dimensions env images =
     (if shapeless images then Inr PyEmptyList
      else and_then (items images) (\<lambda>xs. np_median_axis0 env (map shape xs)))"

definition resize_images :: "'a env \<Rightarrow> 'a batch \<Rightarrow> int list option \<Rightarrow> error + 'a batch" where
  "resize_images env images target =
     (if shapeless images then Inr images
      else
        and_then (case target of
                    None \<Rightarrow> compute_median_dimensions env images
                  | Some t \<Rightarrow> Inr (Dims t)) (\<lambda>sz.
        and_then (items images) (\<lambda>xs.
        and_then (seq_map (\<lambda>x. and_then (divide_size env sz (shape x)) (zoom env x)) xs)
          (np_array env))))"

subsection \<open>Normalisation\<close>

text \<open>
  The arithmetic of \<open>normalize_images\<close> is that of binary64. Its operations are
  parameters: \<open>fmean\<close> is the mean that \<open>numpy.mean\<close> computes of the values at one
  position (in batch order), \<open>fsub\<close> the subtraction, \<open>div255\<close> the division by
  \<open>255.\<close>, and \<open>bsub\<close> the subtraction of arrays whose shapes numpy has to broadcast
  in another way than by repeating the mean image along the first axis.
\<close>

record 'a fops =
  fmean :: "'a list \<Rightarrow> 'a"
  fsub :: "'a \<Rightarrow> 'a \<Rightarrow> 'a"
  div255 :: "'a \<Rightarrow> 'a"
  bsub :: "'a ndarray \<Rightarrow> 'a ndarray \<Rightarrow> error + 'a ndarray"

text \<open>The elements of image \<open>i\<close> of a stacked array whose images have shape \<open>s\<close>.\<close>

definition image_at :: "nat list \<Rightarrow> 'a list \<Rightarrow> nat \<Rightarrow> 'a list" where
  "image_at s xs i = take (prod_list s) (drop (i * prod_list s) xs)"

text \<open>\<open>numpy.mean(x, axis=0)\<close>.\<close>

definition np_mean_axis0 :: "'a fops \<Rightarrow> 'a ndarray \<Rightarrow> error + 'a ndarray" where
  "np_mean_axis0 ops a =
     (case shape a of
        [] \<Rightarrow> Inl (AxisError ''axis 0 is out of bounds for array of dimension 0'')
      | n # s \<Rightarrow>
          Inr (NDArray s
                 (map (\<lambda>j. fmean ops (map (\<lambda>i. data a ! (i * prod_list s + j)) [0..<n]))
                    [0..<prod_list s])))"

text \<open>\<open>x - mean\<close>: the mean image is subtracted from every image of the batch.\<close>

definition np_subtract :: "'a fops \<Rightarrow> 'a ndarray \<Rightarrow> 'a ndarray \<Rightarrow> error + 'a ndarray" where
  "np_subtract ops x m =
     (case shape x of
        [] \<Rightarrow> bsub ops x m
      | n # s \<Rightarrow>
          if s = shape m
          then Inr (NDArray (shape x)
                      (map2 (fsub ops) (data x) (concat (replicate n (data m)))))
          else bsub ops x m)"

definition np_div255 :: "'a fops \<Rightarrow> 'a ndarray \<Rightarrow> 'a ndarray" where
  "np_div255 ops a = NDArray (shape a) (map (div255 ops) (data a))"

definition normalize_images ::
  "'a fops \<Rightarrow> 'a ndarray \<Rightarrow> 'a ndarray \<Rightarrow> error + 'a ndarray \<times> 'a ndarray" where
  "normalize_images ops x_train x_test =
     and_then (np_mean_axis0 ops x_train) (\<lambda>x_train_mean.
     and_then (np_subtract ops x_train x_train_mean) (\<lambda>a.
     and_then (np_subtract ops x_test x_train_mean) (\<lambda>b.
       Inr (np_div255 ops a, np_div255 ops b))))"

subsection \<open>A sample environment\<close>

text \<open>
  A directory \<open>imgs\<close> with a grey image \<open>a.png\<close> of 2 x 2 pixels and a colour image
  \<open>b.png\<close> of 1 x 2 pixels; a label index \<open>labels.csv\<close> of a header, three rows and a
  blank line; \<open>bare.csv\<close>, four lines of file name and label without a header line;
  \<open>names.csv\<close> with the file names only; \<open>header.csv\<close> with a header and no row;
  \<open>nocols.csv\<close>, no plain table, for which the parser of this environment returns a
  table without columns. The split puts the first seven tenths of the rows, rounded down,
  into the train partition, and raises when that leaves it empty.
\<close>

definition sample_env :: "nat env" where
  "sample_env =
     \<lparr>path_exists = (\<lambda>p. p \<in> set [''labels.csv'', ''bare.csv'', ''names.csv'', ''header.csv'',
                                    ''nocols.csv'', ''imgs/a.png'', ''imgs/b.png'']),
      isdir = (\<lambda>p. p = ''imgs''),
      imread = (\<lambda>p. if p = ''imgs/a.png'' then Inr (NDArray [2, 2] [10, 20, 30, 40])
                     else if p = ''imgs/b.png'' then Inr (NDArray [1, 2, 3] [1, 2, 3, 4, 5, 6])
                     else Inl (ExternalError ''Could not find a format to read the file'')),
      file_lines =
        (\<lambda>p. if p = ''labels.csv''
             then [[''File Name'', ''Label''], [''a.png'', ''cat''], [],
                   [''b.png'', ''dog''], [''a.png'', ''cat'']]
             else if p = ''bare.csv''
             then [[''a.png'', ''cat''], [''b.png'', ''dog''], [''a.png'', ''cat''],
                   [''b.png'', ''dog'']]
             else if p = ''names.csv''
             then [[''File Name''], [''a.png''], [''b.png''], [''a.png'']]
             else if p = ''header.csv''
             then [[''File Name'', ''Label'']]
             else if p = ''nocols.csv''
             then [[''File Name''], [''a.png'', ''cat'', ''1'']]
             else []),
      read_csv_other = (\<lambda>p. Inr \<lparr>columns = [], rows = []\<rparr>),
      train_test_split =
        (\<lambda>df. if 7 * length (rows df) div 10 = 0
              then Inl (ValueError ''the resulting train set will be empty'')
              else Inr (df\<lparr>rows := take (7 * length (rows df) div 10) (rows df)\<rparr>,
                        df\<lparr>rows := drop (7 * length (rows df) div 10) (rows df)\<rparr>)),
      rebalance = (\<lambda>df c. Inr df),
      pool_pick = (\<lambda>n. 0),
      ragged_array = (\<lambda>xs. None),
      ragged_median = (\<lambda>ss. Inl (ValueError ''inhomogeneous shape'')),
      nan_int = - 9223372036854775808,
      spline = (\<lambda>x out. replicate (prod_list out) 0)\<rparr>"

text \<open>Exact rational arithmetic in place of binary64.\<close>

definition rat_ops :: "rat fops" where
  "rat_ops =
     \<lparr>fmean = (\<lambda>xs. sum_list xs / of_nat (length xs)),
      fsub = (\<lambda>a b. a - b),
      div255 = (\<lambda>a. a / 255),
      bsub = (\<lambda>x m. Inl (ValueError ''operands could not be broadcast together''))\<rparr>"

subsection \<open>Medians\<close>

text \<open>
  A median of a list of numbers: at least half of the elements are not above it and at
  least half are not below it.
\<close>

definition is_median :: "nat list \<Rightarrow> rat \<Rightarrow> bool" where
  "is_median xs m =
     (length xs \<le> 2 * length (filter (\<lambda>x. of_nat x \<le> m) xs) \<and>
      length xs \<le> 2 * length (filter (\<lambda>x. m \<le> of_nat x) xs))"

text \<open>
  The target shape in the words of the spec: the median of the shapes along each axis,
  rounded to the nearest integer (\<open>round\<close> rounds a half upwards).
\<close>

definition spec_median_dimensions :: "nat list list \<Rightarrow> int list" where
  "spec_median_dimensions shapes =
     map (\<lambda>j. round (median (map (\<lambda>s. s ! j) shapes))) [0..<length (hd shapes)]"

text \<open>
  The median shape of a non-empty list of images with the same number of axes: along each
  axis, the median of the lengths with its fractional part dropped.
\<close>

definition target_shape :: "'a ndarray list \<Rightarrow> int list" where
  "target_shape xs =
     map (\<lambda>j. \<lfloor>median (map (\<lambda>x. shape x ! j) xs)\<rfloor>) [0..<length (shape (hd xs))]"

subsection \<open>The contract of the split\<close>


section \<open>Properties\<close>

subsection \<open>The label index: soft failure\<close>

text \<open>
  Claim C1. When the path is \<open>None\<close> or does not exist, \<open>read_csv_file\<close> prints a
  warning and returns the 2-tuple \<open>([[]], [])\<close>; it raises nothing. It returns the same
  tuple, after another warning, when the parsed table has no column.
\<close>

theorem read_csv_file_soft_failure:
  "(path = None \<or> \<not> path_exists env (the path) \<longrightarrow>
      read_csv_file env path balance =
        ([''WARNING: Path does not exist, or is None.''], Inr (Tuple2 [[]] []))) \<and>
   (path = Some p \<and> path_exists env p \<and> pd_read_csv env p = Inr df \<and>
    length (columns df) = 0 \<longrightarrow>
      read_csv_file env path balance =
        ([''WARNING: File has no columns''], Inr (Tuple2 [[]] [])))"
  by (simp add: read_csv_file_def)

theorem read_csv_file_soft_failure_witness:
  "read_csv_file sample_env None True =
     ([''WARNING: Path does not exist, or is None.''], Inr (Tuple2 [[]] [])) \<and>
   read_csv_file sample_env (Some ''missing.csv'') False =
     ([''WARNING: Path does not exist, or is None.''], Inr (Tuple2 [[]] [])) \<and>
   read_csv_file sample_env (Some ''nocols.csv'') True =
     ([''WARNING: File has no columns''], Inr (Tuple2 [[]] []))"
  using read_csv_file_soft_failure
          [where path = None and env = sample_env and balance = True]
        read_csv_file_soft_failure
          [where path = "Some ''missing.csv''" and env = sample_env and balance = False]
        read_csv_file_soft_failure
          [where path = "Some ''nocols.csv''" and p = "''nocols.csv''" and env = sample_env
             and df = "\<lparr>columns = [], rows = []\<rparr>" and balance = True]
  by (simp add: sample_env_def pd_read_csv_def plain_table_def)

text \<open>
  Claim C9. For a CSV path that is \<open>None\<close> or does not exist, \<open>load_image_dataset\<close>
  raises: \<open>read_csv_file\<close> returns two values and the assignment to four names fails with
  a \<open>ValueError\<close>, after the warning of \<open>read_csv_file\<close> has been printed. No empty
  dataset is returned.
\<close>

theorem load_image_dataset_missing_csv_raises:
  "csv_file_path = None \<or> \<not> path_exists env (the csv_file_path) \<Longrightarrow>
   load_image_dataset env csv_file_path images_path parallel =
     ([''WARNING: Path does not exist, or is None.''],
      Inl (ValueError ''not enough values to unpack (expected 4, got 2)''))"
  by (auto simp add: load_image_dataset_def read_csv_file_def and_then_def)

theorem load_image_dataset_missing_csv_raises_witness:
  "load_image_dataset sample_env None ''imgs'' True =
     ([''WARNING: Path does not exist, or is None.''],
      Inl (ValueError ''not enough values to unpack (expected 4, got 2)'')) \<and>
   \<not> path_exists sample_env ''missing.csv'' \<and>
   load_image_dataset sample_env (Some ''missing.csv'') ''imgs'' False =
     ([''WARNING: Path does not exist, or is None.''],
      Inl (ValueError ''not enough values to unpack (expected 4, got 2)''))"
  using load_image_dataset_missing_csv_raises
          [where csv_file_path = None and env = sample_env and images_path = "''imgs''"
             and parallel = True]
        load_image_dataset_missing_csv_raises
          [where csv_file_path = "Some ''missing.csv''" and env = sample_env
             and images_path = "''imgs''" and parallel = False]
  by (simp add: sample_env_def)

subsection \<open>The decoder\<close>

lemma last_positive: "xs \<noteq> [] \<Longrightarrow> 0 \<notin> set xs \<Longrightarrow> Suc 0 \<le> last xs"
proof -
  assume a: "xs \<noteq> []" and b: "0 \<notin> set xs"
  from a have "last xs \<in> set xs" by simp
  with b have "last xs \<noteq> 0" by metis
  then show ?thesis by simp
qed

text \<open>
  Claim C7. For a path that exists and that the codec decodes to an image of two or three
  axes (what \<open>imageio.imread\<close> returns for an image file), the decoder returns an array of
  three axes with the same elements: a grey image gets a last axis of length 1, a colour
  image is returned as it is. When the decoded image has no empty axis, the channel axis
  has at least one element.
\<close>

theorem image_to_array_three_axes:
  "path_exists env p \<and> imread env p = Inr img \<and>
   (length (shape img) = 2 \<or> length (shape img) = 3) \<longrightarrow>
   (let out = (if length (shape img) = 2 then NDArray (shape img @ [1]) (data img) else img)
    in image_to_array env p = Inr out \<and> length (shape out) = 3 \<and> data out = data img \<and>
       (0 \<notin> set (shape img) \<longrightarrow> 1 \<le> last (shape out)))"
proof (intro impI)
  assume h: "path_exists env p \<and> imread env p = Inr img \<and>
    (length (shape img) = 2 \<or> length (shape img) = 3)"
  then have ne: "shape img \<noteq> []" by auto
  from h show
    "(let out = (if length (shape img) = 2 then NDArray (shape img @ [1]) (data img) else img)
      in image_to_array env p = Inr out \<and> length (shape out) = 3 \<and> data out = data img \<and>
         (0 \<notin> set (shape img) \<longrightarrow> 1 \<le> last (shape out)))"
    using last_positive[OF ne] by (auto simp add: image_to_array_def read_image_def Let_def)
qed

theorem image_to_array_three_axes_witness:
  "path_exists sample_env ''imgs/a.png'' \<and>
   imread sample_env ''imgs/a.png'' = Inr (NDArray [2, 2] [10, 20, 30, 40]) \<and>
   image_to_array sample_env ''imgs/a.png'' = Inr (NDArray [2, 2, 1] [10, 20, 30, 40]) \<and>
   image_to_array sample_env ''imgs/b.png'' = Inr (NDArray [1, 2, 3] [1, 2, 3, 4, 5, 6])"
  using image_to_array_three_axes
          [where env = sample_env and p = "''imgs/a.png''"
             and img = "NDArray [2, 2] [10, 20, 30, 40]"]
        image_to_array_three_axes
          [where env = sample_env and p = "''imgs/b.png''"
             and img = "NDArray [1, 2, 3] [1, 2, 3, 4, 5, 6]"]
  by (simp add: sample_env_def)

subsection \<open>Resizing: batches without images\<close>

text \<open>
  Claim C5, as the spec states it: every empty or shapeless batch is returned unchanged.
  An empty batch of shape \<open>(0, 10, 10, 3)\<close> is not: the guard of \<open>resize_images\<close> tests
  the number of axes, not the number of images, and the result is the array that
  \<open>numpy.array([])\<close> builds, of shape \<open>(0,)\<close>.
\<close>

theorem resize_images_empty_batch_counterexample:
  "resize_images sample_env (Arr (NDArray [0, 10, 10, 3] [])) None = Inr (Arr (NDArray [0] [])) \<and>
   resize_images sample_env (Arr (NDArray [0, 10, 10, 3] [])) None \<noteq>
     Inr (Arr (NDArray [0, 10, 10, 3] []))"
  by (simp add: resize_images_def shapeless_def compute_median_dimensions_def items_def
      and_then_def np_median_axis0_def np_array_def)

text \<open>
  Claim C5, amended. \<open>None\<close> and a batch without axes are returned unchanged, whatever the
  target size. A batch without images (an empty object array, or an array whose first
  axis is empty) gives the empty array of shape \<open>(0,)\<close>.
\<close>

theorem resize_images_shapeless_identity:
  "(shapeless images \<longrightarrow> resize_images env images target = Inr images) \<and>
   (images = Obj [] \<or> images = Arr (NDArray (0 # s) d) \<longrightarrow>
      resize_images env images target = Inr (Arr (NDArray [0] [])))"
  by (auto simp add: resize_images_def shapeless_def compute_median_dimensions_def items_def
      and_then_def np_median_axis0_def np_array_def split: option.splits)

theorem resize_images_shapeless_identity_witness:
  "shapeless (PyNone :: nat batch) \<and> resize_images sample_env PyNone None = Inr PyNone \<and>
   shapeless (Arr (NDArray [] [7::nat])) \<and>
   resize_images sample_env (Arr (NDArray [] [7])) (Some [4, 4, 3]) = Inr (Arr (NDArray [] [7])) \<and>
   resize_images sample_env (Obj []) None = Inr (Arr (NDArray [0] [])) \<and>
   resize_images sample_env (Arr (NDArray [0, 10, 10, 3] [])) (Some [4, 4, 3]) =
     Inr (Arr (NDArray [0] []))"
  using resize_images_shapeless_identity
          [where images = "PyNone" and env = sample_env and target = None]
        resize_images_shapeless_identity
          [where images = "Arr (NDArray [] [7])" and env = sample_env
             and target = "Some [4, 4, 3]"]
        resize_images_shapeless_identity
          [where images = "Obj []" and env = sample_env and target = "None"]
        resize_images_shapeless_identity
          [where images = "Arr (NDArray [0, 10, 10, 3] [])" and env = sample_env
             and target = "Some [4, 4, 3]" and s = "[10, 10, 3]" and d = "[]"]
  by (simp add: shapeless_def)

subsection \<open>Reading a batch of images\<close>


lemma seq_map_Inr: "seq_map f xs = Inr ys \<longleftrightarrow> map f xs = map Inr ys"
proof (induction xs arbitrary: ys)
  case Nil
  then show ?case by auto
next
  case (Cons x xs)
  show ?case
  proof (cases "f x")
    case (Inl e)
    then show ?thesis by (cases ys) auto
  next
    case (Inr y)
    show ?thesis
    proof (cases "seq_map f xs")
      case (Inl e)
      with Cons.IH have "\<And>zs. map f xs \<noteq> map Inr zs" by simp
      with Inl Inr show ?thesis by (cases ys) auto
    next
      case r: (Inr zs)
      with Cons.IH[of zs] have "map f xs = map Inr zs" by simp
      with r Inr show ?thesis by (cases ys) (auto simp add: inj_map_eq_map)
    qed
  qed
qed

lemma no_failure_iff: "filter isl rs = [] \<longleftrightarrow> rs = map Inr (map projr rs)"
proof (induction rs)
  case Nil
  then show ?case by simp
next
  case (Cons a rs)
  then show ?case by (cases a) auto
qed

lemma pool_map_Inr: "pool_map env f xs = Inr ys \<longleftrightarrow> map f xs = map Inr ys"
proof
  assume "pool_map env f xs = Inr ys"
  then have a: "filter isl (map f xs) = []" and b: "ys = map projr (map f xs)"
    by (auto simp add: pool_map_def Let_def split: if_splits)
  from a have "map f xs = map Inr (map projr (map f xs))" by (simp only: no_failure_iff[symmetric])
  with b show "map f xs = map Inr ys" by simp
next
  assume h: "map f xs = map Inr ys"
  then have "filter isl (map f xs) = []" by (simp add: filter_empty_conv)
  moreover from h have "map projr (map f xs) = ys" by (simp add: comp_def)
  ultimately show "pool_map env f xs = Inr ys" by (simp add: pool_map_def Let_def)
qed

lemma seq_map_Inl: "seq_map f xs = Inl e \<Longrightarrow> \<exists>x\<in>set xs. f x = Inl e"
  by (induction xs) (auto split: sum.splits)

lemma pool_map_Inl: "pool_map env f xs = Inl e \<Longrightarrow> \<exists>x\<in>set xs. f x = Inl e"
proof -
  assume h: "pool_map env f xs = Inl e"
  define errs where "errs = map projl (filter isl (map f xs))"
  from h have ne: "errs \<noteq> []" and e: "e = errs ! (pool_pick env (length errs) mod length errs)"
    by (auto simp add: pool_map_def Let_def errs_def split: if_splits)
  from ne have "pool_pick env (length errs) mod length errs < length errs" by simp
  with e have "e \<in> set errs" by simp
  then obtain r where "r \<in> set (map f xs)" "isl r" "e = projl r" by (auto simp add: errs_def)
  then show ?thesis by (cases r) auto
qed

lemma concat_slice:
  "\<forall>x\<in>set xs. length x = k \<Longrightarrow> i < length xs \<Longrightarrow> take k (drop (i * k) (concat xs)) = xs ! i"
proof (induction xs arbitrary: i)
  case Nil
  then show ?case by simp
next
  case (Cons x xs)
  show ?case
  proof (cases i)
    case 0
    with Cons.prems show ?thesis by simp
  next
    case (Suc j)
    with Cons.prems have "take k (drop (j * k) (concat xs)) = xs ! j"
      by (intro Cons.IH) auto
    with Suc Cons.prems show ?thesis by (simp add: add.commute)
  qed
qed

lemma np_array_items:
  assumes "np_array env xs = Inr b" and "list_all wf_array xs"
  shows "items b = Inr xs"
proof (cases "xs = []")
  case True
  with assms show ?thesis by (auto simp add: np_array_def items_def)
next
  case False
  show ?thesis
  proof (cases "list_all (\<lambda>x. shape x = shape (hd xs)) xs")
    case u: True
    define s where "s = shape (hd xs)"
    have sh: "\<And>x. x \<in> set xs \<Longrightarrow> shape x = s"
      using u by (simp add: list_all_iff s_def)
    have len: "\<forall>d\<in>set (map data xs). length d = prod_list s"
      using assms(2) sh by (auto simp add: list_all_iff wf_array_def)
    from assms(1) False u have b: "b = Arr (NDArray (length xs # s) (concat (map data xs)))"
      by (simp add: np_array_def s_def)
    have "map (\<lambda>i. NDArray s (take (prod_list s) (drop (i * prod_list s) (concat (map data xs)))))
            [0..<length xs] = xs"
    proof (rule nth_equalityI)
      show "length (map (\<lambda>i. NDArray s (take (prod_list s)
              (drop (i * prod_list s) (concat (map data xs))))) [0..<length xs]) = length xs"
        by simp
    next
      fix i
      assume "i < length (map (\<lambda>i. NDArray s (take (prod_list s)
              (drop (i * prod_list s) (concat (map data xs))))) [0..<length xs])"
      then have i: "i < length xs" by simp
      then have "take (prod_list s) (drop (i * prod_list s) (concat (map data xs))) = data (xs ! i)"
        using concat_slice[OF len, of i] by simp
      moreover from i have "shape (xs ! i) = s" by (simp add: sh)
      ultimately show "map (\<lambda>i. NDArray s (take (prod_list s)
              (drop (i * prod_list s) (concat (map data xs))))) [0..<length xs] ! i = xs ! i"
        using i by (cases "xs ! i") simp
    qed
    with b show ?thesis by (simp add: items_def)
  next
    case False
    with assms(1) \<open>xs \<noteq> []\<close> show ?thesis
      by (auto simp add: np_array_def items_def split: option.splits)
  qed
qed

lemma image_to_array_wf:
  assumes "\<And>q img. imread env q = Inr img \<Longrightarrow> wf_array img"
    and "image_to_array env p = Inr x"
  shows "wf_array x"
  using assms
  by (auto simp add: image_to_array_def read_image_def wf_array_def split: if_splits sum.splits)

lemma decoded_list:
  "map f ps = map Inr xs \<longleftrightarrow> length xs = length ps \<and> (\<forall>i<length ps. f (ps ! i) = Inr (xs ! i))"
  by (auto simp add: list_eq_iff_nth_eq)

lemma decode_all_same:
  "(if parallel then pool_map env f ps else seq_map f ps) = Inr xs \<longleftrightarrow> map f ps = map Inr xs"
  by (simp add: pool_map_Inr seq_map_Inr)

lemma read_images_Inr:
  "read_images env names dir parallel = Inr b \<longleftrightarrow>
     isdir env dir \<and>
     (\<exists>xs. map (image_to_array env) (map (path_join dir) names) = map Inr xs \<and>
           np_array env xs = Inr b)"
proof (cases "if parallel then pool_map env (image_to_array env) (map (path_join dir) names)
              else seq_map (image_to_array env) (map (path_join dir) names)")
  case (Inl e)
  then have "\<And>xs. map (image_to_array env) (map (path_join dir) names) \<noteq> map Inr xs"
    using decode_all_same[of parallel env "image_to_array env" "map (path_join dir) names"]
    by auto
  with Inl show ?thesis by (auto simp add: read_images_def Let_def and_then_def)
next
  case (Inr ys)
  then have m: "map (image_to_array env) (map (path_join dir) names) = map Inr ys"
    using decode_all_same[of parallel env "image_to_array env" "map (path_join dir) names" ys]
    by auto
  have "\<And>xs. map (image_to_array env) (map (path_join dir) names) = map Inr xs \<Longrightarrow> xs = ys"
    using m by (simp add: inj_map_eq_map)
  with Inr m show ?thesis
    by (auto simp add: read_images_def Let_def and_then_def)
qed

text \<open>
  Claim C4. \<open>read_images\<close> returns a batch in parallel mode exactly when it returns that
  batch in sequential mode (over a directory that exists or not). The batch that either
  mode returns is \<open>numpy.asanyarray\<close> of the decoded images in the order of the file
  names: image \<open>i\<close> is the one decoded from \<open>os.path.join(dir, names[i])\<close>. When the
  codec returns arrays with as many elements as their shape says, iterating over the
  batch gives these images back, in that order.
\<close>

theorem read_images_parallel_equals_sequential:
  "(read_images env names dir True = Inr b \<longleftrightarrow> read_images env names dir False = Inr b) \<and>
   (read_images env names dir parallel = Inr b \<longrightarrow>
      (\<exists>xs. length xs = length names \<and>
            (\<forall>i<length names. image_to_array env (path_join dir (names ! i)) = Inr (xs ! i)) \<and>
            np_array env xs = Inr b \<and>
            ((\<forall>q img. imread env q = Inr img \<longrightarrow> wf_array img) \<longrightarrow> items b = Inr xs)))"
proof (intro conjI impI)
  show "read_images env names dir True = Inr b \<longleftrightarrow> read_images env names dir False = Inr b"
    by (simp only: read_images_Inr)
next
  assume "read_images env names dir parallel = Inr b"
  then obtain xs where m: "map (image_to_array env) (map (path_join dir) names) = map Inr xs"
    and b: "np_array env xs = Inr b"
    by (auto simp only: read_images_Inr)
  from m have len: "length xs = length names"
    and nth: "\<forall>i<length names. image_to_array env (path_join dir (names ! i)) = Inr (xs ! i)"
    using decoded_list[of "image_to_array env" "map (path_join dir) names" xs] by auto
  have "(\<forall>q img. imread env q = Inr img \<longrightarrow> wf_array img) \<longrightarrow> items b = Inr xs"
  proof
    assume codec: "\<forall>q img. imread env q = Inr img \<longrightarrow> wf_array img"
    have "list_all wf_array xs"
      unfolding list_all_length
    proof (intro allI impI)
      fix i assume "i < length xs"
      with len nth have "image_to_array env (path_join dir (names ! i)) = Inr (xs ! i)" by simp
      then show "wf_array (xs ! i)" using codec image_to_array_wf by blast
    qed
    with b show "items b = Inr xs" by (rule np_array_items)
  qed
  with len nth b show "\<exists>xs. length xs = length names \<and>
            (\<forall>i<length names. image_to_array env (path_join dir (names ! i)) = Inr (xs ! i)) \<and>
            np_array env xs = Inr b \<and>
            ((\<forall>q img. imread env q = Inr img \<longrightarrow> wf_array img) \<longrightarrow> items b = Inr xs)"
    by blast
qed

theorem read_images_parallel_equals_sequential_witness:
  "read_images sample_env [''a.png'', ''b.png''] ''imgs'' False =
     Inr (Obj [NDArray [2, 2, 1] [10, 20, 30, 40], NDArray [1, 2, 3] [1, 2, 3, 4, 5, 6]]) \<and>
   read_images sample_env [''a.png'', ''b.png''] ''imgs'' True =
     Inr (Obj [NDArray [2, 2, 1] [10, 20, 30, 40], NDArray [1, 2, 3] [1, 2, 3, 4, 5, 6]])"
proof -
  have s: "read_images sample_env [''a.png'', ''b.png''] ''imgs'' False =
     Inr (Obj [NDArray [2, 2, 1] [10, 20, 30, 40], NDArray [1, 2, 3] [1, 2, 3, 4, 5, 6]])"
    by (simp add: read_images_def sample_env_def path_join_def image_to_array_def
        read_image_def and_then_def np_array_def)
  with read_images_parallel_equals_sequential[where env = sample_env and names = "[''a.png'', ''b.png'']" and dir = "''imgs''"
      and b = "Obj [NDArray [2, 2, 1] [10, 20, 30, 40], NDArray [1, 2, 3] [1, 2, 3, 4, 5, 6]]"]
  show ?thesis by blast
qed

lemma decode_all_Inl:
  "(if parallel then pool_map env f ps else seq_map f ps) = Inl e \<Longrightarrow> \<exists>x\<in>set ps. f x = Inl e"
  by (auto dest: pool_map_Inl seq_map_Inl split: if_splits)

lemma seq_map_first_failure:
  "\<forall>x\<in>set pre. \<exists>y. f x = Inr y \<Longrightarrow> f p = Inl e \<Longrightarrow> seq_map f (pre @ p # post) = Inl e"
  by (induction pre) (auto split: sum.splits)

lemma all_Inr_no_failure: "\<forall>x\<in>set xs. \<exists>y. f x = Inr y \<Longrightarrow> filter isl (map f xs) = []"
  by (induction xs) auto

lemma pool_map_only_failure:
  assumes "\<forall>x\<in>set (pre @ post). \<exists>y. f x = Inr y" and "f p = Inl e"
  shows "pool_map env f (pre @ p # post) = Inl e"
proof -
  have "filter isl (map f pre) = []" "filter isl (map f post) = []"
    using assms(1) by (auto intro!: all_Inr_no_failure)
  with assms(2) have "map projl (filter isl (map f (pre @ p # post))) = [e]" by simp
  then show ?thesis unfolding pool_map_def Let_def by (simp del: map_append filter_append)
qed

text \<open>
  Claim C6. For a path that does not exist the decoder raises (the spec's
  \<open>NotFoundError\<close> is the \<open>ValueError\<close> "... image does not exist" of the code). When
  the path of one of the file names does not exist, \<open>read_images\<close> raises in both modes and
  returns no batch. The exception is that of the missing image when the images before it
  decode (sequential mode), or when all the other images decode (parallel mode).
\<close>

theorem missing_image_aborts_batch:
  "(\<not> path_exists env p \<longrightarrow>
      image_to_array env p = Inl (ValueError (p @ '' image does not exist''))) \<and>
   (isdir env dir \<and> name \<in> set names \<and> \<not> path_exists env (path_join dir name) \<longrightarrow>
      (\<exists>e. read_images env names dir parallel = Inl e)) \<and>
   (isdir env dir \<and> names = pre @ name # post \<and> \<not> path_exists env (path_join dir name) \<and>
    (\<forall>n\<in>set pre. \<exists>img. image_to_array env (path_join dir n) = Inr img) \<and>
    (parallel \<longrightarrow> (\<forall>n\<in>set post. \<exists>img. image_to_array env (path_join dir n) = Inr img)) \<longrightarrow>
      read_images env names dir parallel =
        Inl (ValueError (path_join dir name @ '' image does not exist'')))"
proof (intro conjI impI)
  show a: "\<not> path_exists env p \<Longrightarrow>
      image_to_array env p = Inl (ValueError (p @ '' image does not exist''))" for p
    by (simp add: image_to_array_def)
  {
    assume h: "isdir env dir \<and> name \<in> set names \<and> \<not> path_exists env (path_join dir name)"
    have "\<And>b. read_images env names dir parallel \<noteq> Inr b"
    proof
      fix b assume "read_images env names dir parallel = Inr b"
      then obtain xs where "map (image_to_array env) (map (path_join dir) names) = map Inr xs"
        by (auto simp only: read_images_Inr)
      then have "\<forall>i<length names. image_to_array env (path_join dir (names ! i)) = Inr (xs ! i)"
        using decoded_list[of "image_to_array env" "map (path_join dir) names" xs] by auto
      then have "\<forall>x\<in>set names. \<exists>y. image_to_array env (path_join dir x) = Inr y"
        by (auto simp add: in_set_conv_nth)
      with h a[of "path_join dir name"] show False by auto
    qed
    then show "\<exists>e. read_images env names dir parallel = Inl e"
      by (cases "read_images env names dir parallel") auto
  }
  {
    assume h: "isdir env dir \<and> names = pre @ name # post \<and>
      \<not> path_exists env (path_join dir name) \<and>
      (\<forall>n\<in>set pre. \<exists>img. image_to_array env (path_join dir n) = Inr img) \<and>
      (parallel \<longrightarrow> (\<forall>n\<in>set post. \<exists>img. image_to_array env (path_join dir n) = Inr img))"
    let ?e = "ValueError (path_join dir name @ '' image does not exist'')"
    let ?f = "image_to_array env"
    let ?ps = "map (path_join dir) pre @ path_join dir name # map (path_join dir) post"
    have f: "?f (path_join dir name) = Inl ?e" using h a by simp
    have pre: "\<forall>x\<in>set (map (path_join dir) pre). \<exists>y. ?f x = Inr y" using h by auto
    have "(if parallel then pool_map env ?f ?ps else seq_map ?f ?ps) = Inl ?e"
    proof (cases parallel)
      case True
      with h have "\<forall>x\<in>set (map (path_join dir) pre @ map (path_join dir) post). \<exists>y. ?f x = Inr y"
        by auto
      then have "pool_map env ?f ?ps = Inl ?e" using f by (rule pool_map_only_failure)
      with True show ?thesis by simp
    next
      case False
      then show ?thesis using seq_map_first_failure[OF pre f] by simp
    qed
    with h show "read_images env names dir parallel = Inl ?e"
      by (simp add: read_images_def Let_def and_then_def)
  }
qed

theorem missing_image_aborts_batch_witness:
  "\<not> path_exists sample_env ''imgs/c.png'' \<and>
   image_to_array sample_env ''imgs/c.png'' = Inl (ValueError ''imgs/c.png image does not exist'') \<and>
   read_images sample_env [''a.png'', ''c.png'', ''b.png''] ''imgs'' False =
     Inl (ValueError ''imgs/c.png image does not exist'') \<and>
   read_images sample_env [''a.png'', ''c.png'', ''b.png''] ''imgs'' True =
     Inl (ValueError ''imgs/c.png image does not exist'')"
  using missing_image_aborts_batch[where env = sample_env and p = "''imgs/c.png''" and dir = "''imgs''"
      and names = "[''a.png'', ''c.png'', ''b.png'']" and name = "''c.png''"
      and pre = "[''a.png'']" and post = "[''b.png'']" and parallel = False]
    missing_image_aborts_batch[where env = sample_env and p = "''imgs/c.png''" and dir = "''imgs''"
      and names = "[''a.png'', ''c.png'', ''b.png'']" and name = "''c.png''"
      and pre = "[''a.png'']" and post = "[''b.png'']" and parallel = True]
  by (simp add: sample_env_def path_join_def image_to_array_def read_image_def)

subsection \<open>The median shape\<close>


lemma filter_length_mono:
  "(\<And>x. x \<in> set xs \<Longrightarrow> P x \<Longrightarrow> Q x) \<Longrightarrow> length (filter P xs) \<le> length (filter Q xs)"
  by (induction xs) auto

lemma filter_length_sort: "length (filter P (sort xs)) = length (filter P xs)"
proof -
  have "mset (filter P (sort xs)) = mset (filter P xs)" by simp
  then show ?thesis by (metis size_mset)
qed

lemma count_le_sorted:
  assumes "sorted (s :: nat list)" and "k < length s"
  shows "Suc k \<le> length (filter (\<lambda>x. x \<le> s ! k) s)"
proof -
  have "\<forall>x\<in>set (take (Suc k) s). x \<le> s ! k"
  proof
    fix x assume "x \<in> set (take (Suc k) s)"
    then obtain i where "i < Suc k" "i < length s" "x = s ! i"
      by (auto simp add: in_set_conv_nth)
    with assms show "x \<le> s ! k" by (auto intro: sorted_nth_mono)
  qed
  then have "filter (\<lambda>x. x \<le> s ! k) (take (Suc k) s) = take (Suc k) s" by simp
  moreover have "filter (\<lambda>x. x \<le> s ! k) s =
      filter (\<lambda>x. x \<le> s ! k) (take (Suc k) s) @ filter (\<lambda>x. x \<le> s ! k) (drop (Suc k) s)"
    by (metis append_take_drop_id filter_append)
  ultimately have "length (filter (\<lambda>x. x \<le> s ! k) s) \<ge> length (take (Suc k) s)"
    by simp
  with assms(2) show ?thesis by simp
qed

lemma count_ge_sorted:
  assumes "sorted (s :: nat list)" and "k < length s"
  shows "length s - k \<le> length (filter (\<lambda>x. s ! k \<le> x) s)"
proof -
  have "\<forall>x\<in>set (drop k s). s ! k \<le> x"
  proof
    fix x assume "x \<in> set (drop k s)"
    then obtain i where "i < length s - k" "x = s ! (k + i)"
      by (auto simp add: in_set_conv_nth)
    with assms show "s ! k \<le> x" by (auto intro: sorted_nth_mono)
  qed
  then have "filter (\<lambda>x. s ! k \<le> x) (drop k s) = drop k s" by simp
  moreover have "filter (\<lambda>x. s ! k \<le> x) s =
      filter (\<lambda>x. s ! k \<le> x) (take k s) @ filter (\<lambda>x. s ! k \<le> x) (drop k s)"
    by (metis append_take_drop_id filter_append)
  ultimately have "length (filter (\<lambda>x. s ! k \<le> x) s) \<ge> length (drop k s)"
    by simp
  then show ?thesis by simp
qed

lemma median_is_median:
  assumes "xs \<noteq> []"
  shows "is_median xs (median xs)"
proof -
  define s where "s = sort xs"
  define n where "n = length xs"
  have srt: "sorted s" and len: "length s = n" by (simp_all add: s_def n_def)
  have n0: "0 < n" using assms by (simp add: n_def)
  have cnt: "length (filter P xs) = length (filter P s)" for P
    by (simp add: s_def filter_length_sort)
  show ?thesis
  proof (cases "odd n")
    case True
    then have m: "median xs = of_nat (s ! (n div 2))"
      by (simp add: median_def Let_def s_def n_def)
    have k: "n div 2 < length s" using n0 len by simp
    have "Suc (n div 2) \<le> length (filter (\<lambda>x. x \<le> s ! (n div 2)) s)"
      using count_le_sorted[OF srt k] .
    moreover have "length s - n div 2 \<le> length (filter (\<lambda>x. s ! (n div 2) \<le> x) s)"
      using count_ge_sorted[OF srt k] .
    ultimately show ?thesis
      using len by (simp add: is_median_def m cnt n_def[symmetric]) linarith
  next
    case False
    then have ev: "even n" by simp
    with n0 have n2: "2 \<le> n" by presburger
    define a where "a = s ! (n div 2 - 1)"
    define b where "b = s ! (n div 2)"
    from False have m: "median xs = (of_nat a + of_nat b) / 2"
      by (simp add: median_def Let_def s_def n_def a_def b_def)
    have ka: "n div 2 - 1 < length s" and kb: "n div 2 < length s" using n2 len by auto
    have ab: "a \<le> b" unfolding a_def b_def using srt kb by (intro sorted_nth_mono) auto
    then have am: "(of_nat a :: rat) \<le> median xs" and mb: "median xs \<le> of_nat b"
      by (simp_all add: m field_simps)
    have "Suc (n div 2 - 1) \<le> length (filter (\<lambda>x. x \<le> a) s)"
      unfolding a_def using count_le_sorted[OF srt ka] .
    also have "\<dots> \<le> length (filter (\<lambda>x. of_nat x \<le> median xs) s)"
    proof (rule filter_length_mono)
      fix x assume "x \<le> a"
      then have "(of_nat x :: rat) \<le> of_nat a" by simp
      with am show "of_nat x \<le> median xs" by linarith
    qed
    finally have lo: "n div 2 \<le> length (filter (\<lambda>x. of_nat x \<le> median xs) s)"
      using n2 by simp
    have "length s - n div 2 \<le> length (filter (\<lambda>x. b \<le> x) s)"
      unfolding b_def using count_ge_sorted[OF srt kb] .
    also have "\<dots> \<le> length (filter (\<lambda>x. median xs \<le> of_nat x) s)"
    proof (rule filter_length_mono)
      fix x assume "b \<le> x"
      then have "(of_nat b :: rat) \<le> of_nat x" by simp
      with mb show "median xs \<le> of_nat x" by linarith
    qed
    finally have hi: "n - n div 2 \<le> length (filter (\<lambda>x. median xs \<le> of_nat x) s)"
      using len by simp
    from lo hi ev show ?thesis
      by (simp add: is_median_def cnt n_def[symmetric]) presburger
  qed
qed

lemma median_nonneg: "0 \<le> median xs"
  by (simp add: median_def Let_def)

lemma astype_int_median: "astype_int (median xs) = \<lfloor>median xs\<rfloor>"
  by (simp add: astype_int_def median_nonneg)

lemma items_not_shapeless: "items images = Inr xs \<Longrightarrow> \<not> shapeless images"
  by (auto simp add: items_def shapeless_def split: batch.splits list.splits)

text \<open>
  Claim C2, amended. For a batch with at least one image, all images having \<open>r\<close> axes,
  \<open>compute_median_dimensions\<close> returns, for every axis, the median of the lengths of
  that axis over the images with its fractional part dropped (the cast \<open>astype(int)\<close>
  truncates; it does not round to the nearest integer). The value that is truncated is a
  median of these lengths. On images of shapes (10,10,3), (12,12,3) and (8,8,3) the result
  is (10,10,3).
\<close>

theorem compute_median_dimensions_truncates:
  "(items images = Inr xs \<and> xs \<noteq> [] \<and> list_all (\<lambda>x. length (shape x) = r) xs \<longrightarrow>
      compute_median_dimensions env images =
        Inr (Dims (map (\<lambda>j. \<lfloor>median (map (\<lambda>x. shape x ! j) xs)\<rfloor>) [0..<r])) \<and>
      (\<forall>j<r. is_median (map (\<lambda>x. shape x ! j) xs) (median (map (\<lambda>x. shape x ! j) xs)))) \<and>
   compute_median_dimensions env
     (Obj [NDArray [10, 10, 3] d1, NDArray [12, 12, 3] d2, NDArray [8, 8, 3] d3]) =
     Inr (Dims [10, 10, 3])"
proof (intro conjI impI)
  assume h: "items images = Inr xs \<and> xs \<noteq> [] \<and> list_all (\<lambda>x. length (shape x) = r) xs"
  then have ns: "\<not> shapeless images" by (simp add: items_not_shapeless)
  from h have r: "length (hd (map shape xs)) = r"
    by (cases xs) auto
  from h have u: "list_all (\<lambda>s. length s = length (hd (map shape xs))) (map shape xs)"
    unfolding r by (simp add: list_all_iff)
  from h have r2: "length (shape (hd xs)) = r"
    by (cases xs) auto
  from h ns u show "compute_median_dimensions env images =
        Inr (Dims (map (\<lambda>j. \<lfloor>median (map (\<lambda>x. shape x ! j) xs)\<rfloor>) [0..<r]))"
    by (simp add: compute_median_dimensions_def and_then_def np_median_axis0_def r r2
        astype_int_median comp_def)
  from h show "\<forall>j<r. is_median (map (\<lambda>x. shape x ! j) xs) (median (map (\<lambda>x. shape x ! j) xs))"
    by (simp add: median_is_median)
next
  have m1: "median [10, 12, 8] = 10" and m2: "median [3, 3, 3] = 3"
    by (simp_all add: median_def Let_def)
  have u: "[0..<3] = [0, 1, 2]" by (simp add: upt_rec)
  show "compute_median_dimensions env
     (Obj [NDArray [10, 10, 3] d1, NDArray [12, 12, 3] d2, NDArray [8, 8, 3] d3]) =
     Inr (Dims [10, 10, 3])"
    by (simp add: compute_median_dimensions_def shapeless_def items_def and_then_def
        np_median_axis0_def u m1 m2 astype_int_def)
qed

text \<open>
  Claim C2, as the spec states it: the median is rounded to the nearest integer. For two
  images of shapes (11,11,3) and (12,12,3) the median of the first axis is 11.5, which
  rounds to 12 (rounding a half upwards, and also rounding a half to the even integer);
  the code returns 11.
\<close>

theorem compute_median_dimensions_rounding_counterexample:
  "compute_median_dimensions sample_env
     (Obj [NDArray [11, 11, 3] (replicate 363 0), NDArray [12, 12, 3] (replicate 432 0)]) =
     Inr (Dims [11, 11, 3]) \<and>
   spec_median_dimensions [[11, 11, 3], [12, 12, 3]] = [12, 12, 3]"
proof -
  have m1: "median [11, 12] = 23 / 2" and m2: "median [3, 3] = 3"
    by (simp_all add: median_def Let_def)
  have u: "[0..<3] = [0, 1, 2]" by (simp add: upt_rec)
  have f: "\<lfloor>23 / 2 :: rat\<rfloor> = 11" by (simp add: floor_eq_iff)
  have g: "round (23 / 2 :: rat) = 12" by (simp add: round_def floor_eq_iff)
  show ?thesis
    by (simp add: compute_median_dimensions_def shapeless_def items_def and_then_def
        np_median_axis0_def spec_median_dimensions_def u m1 m2 astype_int_def f g)
qed

theorem compute_median_dimensions_truncates_witness:
  "compute_median_dimensions sample_env
     (Obj [NDArray [11, 11, 3] (replicate 363 0), NDArray [12, 12, 3] (replicate 432 0)]) =
     Inr (Dims [11, 11, 3]) \<and>
   is_median [11, 12] (23 / 2)"
proof -
  let ?xs = "[NDArray [11, 11, 3] (replicate 363 (0::nat)), NDArray [12, 12, 3] (replicate 432 0)]"
  have m1: "median [11, 12] = 23 / 2" and m2: "median [3, 3] = 3"
    by (simp_all add: median_def Let_def)
  have u: "[0..<3] = [0, 1, 2]" by (simp add: upt_rec)
  have f: "\<lfloor>23 / 2 :: rat\<rfloor> = 11" by (simp add: floor_eq_iff)
  have hyp: "items (Obj ?xs) = Inr ?xs \<and> ?xs \<noteq> [] \<and> list_all (\<lambda>x. length (shape x) = 3) ?xs"
    by (simp add: items_def)
  from compute_median_dimensions_truncates[where images = "Obj ?xs" and xs = ?xs and r = 3 and env = sample_env] hyp
  have a: "compute_median_dimensions sample_env (Obj ?xs) =
        Inr (Dims (map (\<lambda>j. \<lfloor>median (map (\<lambda>x. shape x ! j) ?xs)\<rfloor>) [0..<3]))"
    and b: "\<forall>j<3. is_median (map (\<lambda>x. shape x ! j) ?xs) (median (map (\<lambda>x. shape x ! j) ?xs))"
    by blast+
  have "(0::nat) < 3" by simp
  with b have "is_median (map (\<lambda>x. shape x ! 0) ?xs) (median (map (\<lambda>x. shape x ! 0) ?xs))"
    by blast
  then have "is_median [11, 12] (23 / 2)" by (simp add: m1)
  moreover from a have "compute_median_dimensions sample_env (Obj ?xs) = Inr (Dims [11, 11, 3])"
    by (simp add: u m1 m2 f)
  ultimately show ?thesis by simp
qed

subsection \<open>Resizing to the median shape\<close>


lemma zoom_factors:
  "length ds = length s \<Longrightarrow> 0 \<notin> set s \<Longrightarrow>
   map2 (\<lambda>d f. round (of_nat d * the f)) s (map2 fdiv ds s) = ds \<and>
   None \<notin> set (map2 fdiv ds s)"
  by (induction ds s rule: list_induct2) (auto simp add: fdiv_def)

lemma zoom_to_size:
  assumes "length ds = length (shape x)" and "shape x \<noteq> []" and "0 \<notin> set (shape x)"
    and "\<forall>a\<in>set ds. 0 \<le> a"
  shows "and_then (divide_size env (Dims ds) (shape x)) (zoom env x) =
         Inr (NDArray (map nat ds) (spline env x (map nat ds)))"
proof -
  have d: "divide_size env (Dims ds) (shape x) = Inr (map2 fdiv ds (shape x))"
    using assms(1) by (simp add: divide_size_def np_divide_def)
  have ex: "\<not> list_ex (\<lambda>k. k < 0) ds"
    using assms(4) by (auto simp add: list_ex_iff)
  show ?thesis
    using zoom_factors[OF assms(1) assms(3)] assms(1,2) ex
    by (simp add: d and_then_def zoom_def Let_def)
qed

lemma seq_map_total: "(\<And>x. x \<in> set xs \<Longrightarrow> f x = Inr (g x)) \<Longrightarrow> seq_map f xs = Inr (map g xs)"
  by (induction xs) auto

lemma median_in_set:
  assumes "xs \<noteq> []" and "\<forall>x\<in>set xs. k \<le> x"
  shows "of_nat k \<le> median xs"
proof -
  have n: "\<And>i. i < length xs \<Longrightarrow> k \<le> sort xs ! i"
  proof -
    fix i assume "i < length xs"
    then have "sort xs ! i \<in> set (sort xs)" by (intro nth_mem) simp
    then have "sort xs ! i \<in> set xs" by (simp only: set_sort)
    with assms(2) show "k \<le> sort xs ! i" by blast
  qed
  have l: "0 < length xs" using assms(1) by simp
  show ?thesis
  proof (cases "odd (length xs)")
    case True
    with l n[of "length xs div 2"] show ?thesis
      by (simp add: median_def Let_def)
  next
    case False
    with l have "2 \<le> length xs" by presburger
    then have "k \<le> sort xs ! (length xs div 2 - 1)" "k \<le> sort xs ! (length xs div 2)"
      by (auto intro!: n)
    then have "(of_nat k :: rat) \<le> of_nat (sort xs ! (length xs div 2 - 1))"
      "(of_nat k :: rat) \<le> of_nat (sort xs ! (length xs div 2))"
      by simp_all
    with False show ?thesis
      by (simp add: median_def Let_def field_simps)
  qed
qed

lemma median_replicate: "0 < n \<Longrightarrow> median (replicate n a) = of_nat a"
proof -
  assume n: "0 < n"
  have s: "sort (replicate n a) = replicate n a"
    by (simp add: sorted_sort_id)
  show ?thesis
  proof (cases "odd n")
    case True
    with n show ?thesis by (simp add: median_def Let_def s)
  next
    case False
    with n have "2 \<le> n" by presburger
    with False show ?thesis by (simp add: median_def Let_def s)
  qed
qed

lemma compute_median_dimensions_target:
  assumes "items images = Inr xs" and "xs \<noteq> []"
    and "\<forall>x\<in>set xs. length (shape x) = r"
  shows "compute_median_dimensions env images = Inr (Dims (target_shape xs))"
proof -
  have ns: "\<not> shapeless images"
    using assms(1) by (auto simp add: items_def shapeless_def split: batch.splits list.splits)
  have r: "length (shape (hd xs)) = r" using assms(2,3) by (cases xs) auto
  have r1: "length (hd (map shape xs)) = r" using assms(2,3) by (cases xs) auto
  have u: "list_all (\<lambda>s. length s = r) (map shape xs)"
    using assms(3) by (simp add: list_all_iff)
  have f: "astype_int (median ys) = \<lfloor>median ys\<rfloor>" for ys
    by (simp add: astype_int_def median_def Let_def)
  show ?thesis
    using assms(1,2) ns u
    by (simp add: compute_median_dimensions_def and_then_def np_median_axis0_def r r1 f
        target_shape_def comp_def)
qed

lemma target_shape_props:
  assumes "xs \<noteq> []" and "\<forall>x\<in>set xs. length (shape x) = r \<and> 0 \<notin> set (shape x)"
  shows "length (target_shape xs) = r" and "\<forall>a\<in>set (target_shape xs). 1 \<le> a"
proof -
  have r: "length (shape (hd xs)) = r" using assms by (cases xs) auto
  show "length (target_shape xs) = r" by (simp add: target_shape_def r)
  show "\<forall>a\<in>set (target_shape xs). 1 \<le> a"
  proof
    fix a assume "a \<in> set (target_shape xs)"
    then obtain j where j: "j < r" and a: "a = \<lfloor>median (map (\<lambda>x. shape x ! j) xs)\<rfloor>"
      by (auto simp add: target_shape_def r)
    have "\<forall>v\<in>set (map (\<lambda>x. shape x ! j) xs). 1 \<le> v"
    proof
      fix v assume "v \<in> set (map (\<lambda>x. shape x ! j) xs)"
      then obtain x where x: "x \<in> set xs" and v: "v = shape x ! j" by auto
      with assms(2) j have "shape x ! j \<in> set (shape x)" by simp
      with assms(2) x have "shape x ! j \<noteq> 0" by metis
      with v show "1 \<le> v" by simp
    qed
    then have "of_nat 1 \<le> median (map (\<lambda>x. shape x ! j) xs)"
      using assms(1) by (intro median_in_set) auto
    then have "1 \<le> \<lfloor>median (map (\<lambda>x. shape x ! j) xs)\<rfloor>" by (simp add: le_floor_iff)
    with a show "1 \<le> a" by simp
  qed
qed

lemma resize_images_value:
  assumes it: "items images = Inr xs" and ne: "xs \<noteq> []"
    and sh: "\<forall>x\<in>set xs. length (shape x) = r \<and> 0 \<notin> set (shape x)" and r: "0 < r"
  shows "resize_images env images None =
         Inr (Arr (NDArray (length xs # map nat (target_shape xs))
                     (concat (map (\<lambda>x. spline env x (map nat (target_shape xs))) xs))))"
proof -
  let ?ds = "target_shape xs"
  let ?g = "\<lambda>x. NDArray (map nat ?ds) (spline env x (map nat ?ds))"
  have ns: "\<not> shapeless images"
    using it by (auto simp add: items_def shapeless_def split: batch.splits list.splits)
  have m: "compute_median_dimensions env images = Inr (Dims ?ds)"
    using it ne sh by (intro compute_median_dimensions_target) auto
  have len: "length ?ds = r" and pos: "\<forall>a\<in>set ?ds. 1 \<le> a"
    using target_shape_props[OF ne sh] by auto
  have z: "and_then (divide_size env (Dims ?ds) (shape x)) (zoom env x) = Inr (?g x)"
    if "x \<in> set xs" for x
  proof (rule zoom_to_size)
    show "length ?ds = length (shape x)" using that sh len by simp
    show "shape x \<noteq> []" using that sh r by auto
    show "0 \<notin> set (shape x)" using that sh by simp
    show "\<forall>a\<in>set ?ds. 0 \<le> a" using pos by auto
  qed
  have sm: "seq_map (\<lambda>x. and_then (divide_size env (Dims ?ds) (shape x)) (zoom env x)) xs =
        Inr (map ?g xs)"
    by (rule seq_map_total) (rule z)
  have hd: "shape (hd (map ?g xs)) = map nat ?ds" using ne by (cases xs) auto
  have na: "np_array env (map ?g xs) =
        Inr (Arr (NDArray (length xs # map nat ?ds) (concat (map data (map ?g xs)))))"
    using ne by (simp add: np_array_def hd list_all_iff del: map_map)
  show ?thesis
    using ns m it sm na by (simp add: resize_images_def and_then_def comp_def)
qed

text \<open>
  Claim C8. For a batch with at least one image, where all images have the same number
  (at least one) of axes and no empty axis, \<open>resize_images\<close> without a target size
  returns a stacked array of as many images, each of the median shape. Iterating over the
  result gives images of this one shape, and resizing the result again returns an array of
  the same shape: no image changes its shape.
\<close>

theorem resize_images_uniform_idempotent:
  "items images = Inr xs \<and> xs \<noteq> [] \<and> 0 < r \<and>
   list_all (\<lambda>x. length (shape x) = r \<and> 0 \<notin> set (shape x)) xs \<longrightarrow>
   (let t = map nat (target_shape xs);
        out = NDArray (length xs # t) (concat (map (\<lambda>x. spline env x t) xs))
    in resize_images env images None = Inr (Arr out) \<and>
       (\<exists>ys. items (Arr out) = Inr ys \<and> length ys = length xs \<and>
             list_all (\<lambda>y. shape y = t) ys) \<and>
       (\<exists>out'. resize_images env (Arr out) None = Inr (Arr out') \<and> shape out' = shape out))"
proof (intro impI)
  assume h: "items images = Inr xs \<and> xs \<noteq> [] \<and> 0 < r \<and>
    list_all (\<lambda>x. length (shape x) = r \<and> 0 \<notin> set (shape x)) xs"
  then have it: "items images = Inr xs" and ne: "xs \<noteq> []" and r: "0 < r"
    and sh: "\<forall>x\<in>set xs. length (shape x) = r \<and> 0 \<notin> set (shape x)"
    by (auto simp add: list_all_iff)
  define t where "t = map nat (target_shape xs)"
  define out where "out = NDArray (length xs # t) (concat (map (\<lambda>x. spline env x t) xs))"
  define ys where "ys = map (\<lambda>i. NDArray t (take (prod_list t) (drop (i * prod_list t) (data out))))
      [0..<length xs]"
  have len: "length (target_shape xs) = r" and pos: "\<forall>a\<in>set (target_shape xs). 1 \<le> a"
    using target_shape_props[OF ne sh] by auto
  have tl: "length t = r" by (simp add: t_def len)
  have t0: "0 \<notin> set t" using pos by (auto simp add: t_def)
  have first: "resize_images env images None = Inr (Arr out)"
    unfolding out_def t_def by (rule resize_images_value[OF it ne sh r])
  have its: "items (Arr out) = Inr ys"
    by (simp add: items_def out_def ys_def)
  have yne: "ys \<noteq> []" using ne by (simp add: ys_def)
  have ysh: "\<forall>y\<in>set ys. shape y = t" by (auto simp add: ys_def)
  have ysh': "\<forall>y\<in>set ys. length (shape y) = r \<and> 0 \<notin> set (shape y)"
    using ysh tl t0 by simp
  have hdy: "shape (hd ys) = t" using yne ysh by (cases ys) auto
  have col: "map (\<lambda>y. shape y ! j) ys = replicate (length xs) (t ! j)" for j
    by (simp add: ys_def comp_def map_replicate_const)
  have "target_shape ys = map (\<lambda>j. int (t ! j)) [0..<r]"
    using ne by (simp add: target_shape_def hdy tl col median_replicate)
  then have "map nat (target_shape ys) = map (\<lambda>j. t ! j) [0..<length t]"
    by (simp add: tl comp_def)
  then have ty: "map nat (target_shape ys) = t" by (simp add: map_nth)
  have second: "resize_images env (Arr out) None =
      Inr (Arr (NDArray (length ys # t) (concat (map (\<lambda>x. spline env x t) ys))))"
    using resize_images_value[OF its yne ysh' r, of env] by (simp add: ty)
  have ly: "length ys = length xs" by (simp add: ys_def)
  from second ly have "\<exists>out'. resize_images env (Arr out) None = Inr (Arr out') \<and>
      shape out' = shape out"
    by (simp add: out_def)
  moreover from its ly ysh have "\<exists>ys. items (Arr out) = Inr ys \<and> length ys = length xs \<and>
             list_all (\<lambda>y. shape y = t) ys"
    by (simp add: list_all_iff)
  ultimately show "(let t = map nat (target_shape xs);
        out = NDArray (length xs # t) (concat (map (\<lambda>x. spline env x t) xs))
    in resize_images env images None = Inr (Arr out) \<and>
       (\<exists>ys. items (Arr out) = Inr ys \<and> length ys = length xs \<and>
             list_all (\<lambda>y. shape y = t) ys) \<and>
       (\<exists>out'. resize_images env (Arr out) None = Inr (Arr out') \<and> shape out' = shape out))"
    using first unfolding Let_def t_def[symmetric] out_def[symmetric] by blast
qed

theorem resize_images_uniform_idempotent_witness:
  "resize_images sample_env
     (Obj [NDArray [2, 2, 1] [10, 20, 30, 40], NDArray [4, 2, 1] [1, 2, 3, 4, 5, 6, 7, 8]]) None =
   Inr (Arr (NDArray [2, 3, 2, 1] (replicate 12 0)))"
proof -
  let ?xs = "[NDArray [2, 2, 1] [10, 20, 30, 40], NDArray [4, 2, 1] [1, 2, 3, 4, 5, 6, 7, 8 :: nat]]"
  have m: "median [2, 4] = 3" "median [2, 2] = 2" "median [Suc 0, Suc 0] = 1"
    by (simp_all add: median_def Let_def)
  have u: "[0..<3] = [0, 1, 2]" by (simp add: upt_rec)
  have t: "map nat (target_shape ?xs) = [3, 2, 1]"
    by (simp add: target_shape_def u m)
  have hyp: "items (Obj ?xs) = Inr ?xs \<and> ?xs \<noteq> [] \<and> (0::nat) < 3 \<and>
      list_all (\<lambda>x. length (shape x) = 3 \<and> 0 \<notin> set (shape x)) ?xs"
    by (simp add: items_def)
  from resize_images_uniform_idempotent[where images = "Obj ?xs" and xs = ?xs and r = 3 and env = sample_env] hyp
  have "resize_images sample_env (Obj ?xs) None =
      Inr (Arr (NDArray (length ?xs # map nat (target_shape ?xs))
        (concat (map (\<lambda>x. spline sample_env x (map nat (target_shape ?xs))) ?xs))))"
    unfolding Let_def by blast
  then show ?thesis
    unfolding t by (simp add: sample_env_def replicate_add[symmetric])
qed
subsection \<open>The label index: the header line\<close>







subsection \<open>Normalisation with the mean of the train batch\<close>

lemma image_at_nth:
  "length d = n * prod_list s \<Longrightarrow> i < n \<Longrightarrow> j < prod_list s \<Longrightarrow>
   image_at s d i ! j = d ! (i * prod_list s + j)"
proof -
  assume l: "length d = n * prod_list s" and i: "i < n" and j: "j < prod_list s"
  from i have "Suc i \<le> n" by simp
  then have "Suc i * prod_list s \<le> n * prod_list s" by (rule mult_le_mono1)
  with j l have "i * prod_list s + j < length d" by simp
  with j show ?thesis by (simp add: image_at_def)
qed

lemma image_at_broadcast:
  assumes "length mu = prod_list s" and "i < k"
  shows "image_at s (map f (map2 g d (concat (replicate k mu)))) i =
         map2 (\<lambda>v u. f (g v u)) (image_at s d i) mu"
proof -
  have "take (prod_list s) (drop (i * prod_list s) (concat (replicate k mu))) = replicate k mu ! i"
    using assms by (intro concat_slice) auto
  then have c: "take (prod_list s) (drop (i * prod_list s) (concat (replicate k mu))) = mu"
    using assms(2) by simp
  show ?thesis
    by (auto simp add: image_at_def take_map drop_map take_zip drop_zip c)
qed

lemma np_subtract_same_shape:
  "shape x = k # s \<Longrightarrow>
   np_subtract ops x (NDArray s mu) =
     Inr (NDArray (k # s) (map2 (fsub ops) (data x) (concat (replicate k mu))))"
  by (simp add: np_subtract_def)

text \<open>
  Claim C3. Let the train batch hold \<open>n\<close> images and the test batch \<open>m\<close> images, all of
  shape \<open>s\<close>. \<open>normalize_images\<close> returns two batches of the shapes of its arguments.
  With \<open>mean\<close> the image whose value at each position is the mean of the values that the
  \<open>n\<close> train images have there, image \<open>i\<close> of the first result is train image \<open>i\<close> minus
  \<open>mean\<close>, divided by 255, and image \<open>i\<close> of the second result is test image \<open>i\<close> minus
  the same \<open>mean\<close>, divided by 255: no value of the test batch enters \<open>mean\<close>. This holds
  for every arithmetic \<open>ops\<close>.
\<close>

theorem normalize_images_uses_train_mean:
  "shape x_train = n # s \<and> shape x_test = m # s \<and> wf_array x_train \<and> wf_array x_test \<longrightarrow>
   (let mean = map (\<lambda>j. fmean ops (map (\<lambda>i. image_at s (data x_train) i ! j) [0..<n]))
                 [0..<prod_list s]
    in \<exists>tr te.
         normalize_images ops x_train x_test = Inr (tr, te) \<and>
         shape tr = shape x_train \<and> shape te = shape x_test \<and>
         wf_array tr \<and> wf_array te \<and>
         (\<forall>i<n. image_at s (data tr) i =
                 map2 (\<lambda>v u. div255 ops (fsub ops v u)) (image_at s (data x_train) i) mean) \<and>
         (\<forall>i<m. image_at s (data te) i =
                 map2 (\<lambda>v u. div255 ops (fsub ops v u)) (image_at s (data x_test) i) mean))"
proof (intro impI)
  assume h: "shape x_train = n # s \<and> shape x_test = m # s \<and> wf_array x_train \<and> wf_array x_test"
  define mean where
    "mean = map (\<lambda>j. fmean ops (map (\<lambda>i. image_at s (data x_train) i ! j) [0..<n]))
              [0..<prod_list s]"
  define tr where "tr = np_div255 ops
      (NDArray (n # s) (map2 (fsub ops) (data x_train) (concat (replicate n mean))))"
  define te where "te = np_div255 ops
      (NDArray (m # s) (map2 (fsub ops) (data x_test) (concat (replicate m mean))))"
  from h have l: "length (data x_train) = n * prod_list s"
    by (simp add: wf_array_def)
  have "map (\<lambda>j. fmean ops (map (\<lambda>i. data x_train ! (i * prod_list s + j)) [0..<n]))
          [0..<prod_list s] = mean"
    unfolding mean_def
    by (intro map_cong refl arg_cong[where f = "fmean ops"]) (simp add: image_at_nth[OF l])
  with h have nm: "np_mean_axis0 ops x_train = Inr (NDArray s mean)"
    by (simp add: np_mean_axis0_def)
  have lm: "length mean = prod_list s" by (simp add: mean_def)
  have res: "normalize_images ops x_train x_test = Inr (tr, te)"
    using h by (simp add: normalize_images_def and_then_def nm np_subtract_same_shape
        tr_def te_def)
  have s1: "shape tr = shape x_train" and s2: "shape te = shape x_test"
    using h by (simp_all add: tr_def te_def np_div255_def)
  have lc: "length (concat (replicate k mean)) = k * prod_list s" for k
    by (induction k) (simp_all add: lm)
  from h have l2: "length (data x_test) = m * prod_list s"
    by (simp add: wf_array_def)
  have w1: "wf_array tr" and w2: "wf_array te"
    by (simp_all add: wf_array_def tr_def te_def np_div255_def l l2 lc)
  have i1: "\<forall>i<n. image_at s (data tr) i =
      map2 (\<lambda>v u. div255 ops (fsub ops v u)) (image_at s (data x_train) i) mean"
    unfolding tr_def np_div255_def
    using image_at_broadcast[OF lm, where k = n and f = "div255 ops" and g = "fsub ops"
        and d = "data x_train"]
    by (simp del: map_map)
  have i2: "\<forall>i<m. image_at s (data te) i =
      map2 (\<lambda>v u. div255 ops (fsub ops v u)) (image_at s (data x_test) i) mean"
    unfolding te_def np_div255_def
    using image_at_broadcast[OF lm, where k = m and f = "div255 ops" and g = "fsub ops"
        and d = "data x_test"]
    by (simp del: map_map)
  from res s1 s2 w1 w2 i1 i2 show "(let mean = map (\<lambda>j. fmean ops (map (\<lambda>i. image_at s (data x_train) i ! j) [0..<n]))
                 [0..<prod_list s]
    in \<exists>tr te.
         normalize_images ops x_train x_test = Inr (tr, te) \<and>
         shape tr = shape x_train \<and> shape te = shape x_test \<and>
         wf_array tr \<and> wf_array te \<and>
         (\<forall>i<n. image_at s (data tr) i =
                 map2 (\<lambda>v u. div255 ops (fsub ops v u)) (image_at s (data x_train) i) mean) \<and>
         (\<forall>i<m. image_at s (data te) i =
                 map2 (\<lambda>v u. div255 ops (fsub ops v u)) (image_at s (data x_test) i) mean))"
    unfolding Let_def mean_def[symmetric] by blast
qed


theorem normalize_images_uses_train_mean_witness:
  "normalize_images rat_ops (NDArray [2, 1] [0, 255]) (NDArray [1, 1] [255]) =
     Inr (NDArray [2, 1] [- 1 / 2, 1 / 2], NDArray [1, 1] [1 / 2]) \<and>
   fmean rat_ops [0, 255] = 255 / 2 \<and> fmean rat_ops [255] \<noteq> 255 / 2"
proof -
  let ?a = "NDArray [2, 1] [0, 255 :: rat]"
  let ?b = "NDArray [1, 1] [255 :: rat]"
  have hyp: "shape ?a = 2 # [1] \<and> shape ?b = 1 # [1] \<and> wf_array ?a \<and> wf_array ?b"
    by (simp add: wf_array_def)
  have u: "[0..<2] = [0, 1]" "[0..<1] = [0]" by (simp_all add: upt_rec)
  have mean: "map (\<lambda>j. fmean rat_ops (map (\<lambda>i. image_at [1] (data ?a) i ! j) [0..<2]))
                [0..<prod_list [1]] = [255 / 2]"
    by (simp add: u image_at_def rat_ops_def)
  from normalize_images_uses_train_mean[where ops = rat_ops and x_train = ?a and x_test = ?b and n = 2 and s = "[1]" and m = 1]
    hyp
  obtain tr te where r: "normalize_images rat_ops ?a ?b = Inr (tr, te)"
    and st: "shape tr = shape ?a" "shape te = shape ?b"
    and w: "wf_array tr" "wf_array te"
    and i1: "\<forall>i<2. image_at [1] (data tr) i =
        map2 (\<lambda>v u. div255 rat_ops (fsub rat_ops v u)) (image_at [1] (data ?a) i) [255 / 2]"
    and i2: "\<forall>i<1. image_at [1] (data te) i =
        map2 (\<lambda>v u. div255 rat_ops (fsub rat_ops v u)) (image_at [1] (data ?b) i) [255 / 2]"
    unfolding Let_def mean by blast
  have e: "normalize_images rat_ops ?a ?b =
      Inr (NDArray [2, 1] [- 1 / 2, 1 / 2], NDArray [1, 1] [1 / 2])"
    by (simp add: normalize_images_def np_mean_axis0_def np_subtract_def np_div255_def
        rat_ops_def and_then_def u numeral_2_eq_2)
  with r show ?thesis by (simp add: rat_ops_def)
qed

end
